theory Spec2Isabelle
  imports Complex_Main
begin

section \<open>The AIOps latency monitor (aiops/monitor.py)\<close>

text \<open>
  The script polls an endpoint, keeps the most recent response times in the list
  \<^verbatim>\<open>latency_history\<close>, and once that list holds 20 rows it fits an isolation forest on it
  and prints whether the latest response time is an anomaly. Python floats are modelled as
  \<^typ>\<open>real\<close>; no property below depends on rounding.
\<close>

subsection \<open>Configuration\<close>

definition HISTORY_SIZE :: nat where
  "HISTORY_SIZE = 50"

subsection \<open>Data\<close>

text \<open>A row of the training matrix: the script appends \<^verbatim>\<open>[current_latency]\<close>, one feature.\<close>

type_synonym row = "real list"

text \<open>
  What happens inside the \<^verbatim>\<open>try\<close> block of \<^verbatim>\<open>get_latency\<close>: either the request returns,
  and the two readings of \<^verbatim>\<open>time.time()\<close> (in seconds) are known, or \<^verbatim>\<open>requests.get\<close> raises
  (timeout after 2 seconds, connection error, anything else) and the bare \<^verbatim>\<open>except\<close> catches it.
\<close>

datatype probe = Responded real real | Failed

text \<open>
  The imported estimator \<^verbatim>\<open>sklearn.ensemble.IsolationForest\<close> is a library, not code of the
  script, and is taken as a parameter. \<open>fit lib c s X\<close> stands for the fitted estimator
  \<^verbatim>\<open>IsolationForest(contamination=c, random_state=s).fit(X)\<close> and \<open>predict_row lib m r\<close> for
  the label (\<open>-1\<close> anomaly, \<open>1\<close> normal) that \<^verbatim>\<open>m.predict\<close> gives to the row \<open>r\<close>;
  \<^verbatim>\<open>predict\<close> labels the rows of its argument one by one.
\<close>

record 'm isolation_forest =
  fit :: "real \<Rightarrow> int \<Rightarrow> row list \<Rightarrow> 'm"
  predict_row :: "'m \<Rightarrow> row \<Rightarrow> int"

definition predict :: "'m isolation_forest \<Rightarrow> 'm \<Rightarrow> row list \<Rightarrow> int list" where
  "predict lib clf X = map (predict_row lib clf) X"

text \<open>
  The line printed by one iteration, with the latency it reports. The timestamp in the line
  comes from the wall clock and is left out.
\<close>

datatype report = AnomalyDetected real | SystemStable real

subsection \<open>Operations\<close>

text \<open>\<^verbatim>\<open>get_latency\<close>: elapsed time in milliseconds, or the penalty 2000.0 when the request fails.\<close>

definition get_latency :: "probe \<Rightarrow> real" where
  "get_latency p =
     (case p of
        Responded start finish \<Rightarrow> (finish - start) * 1000
      | Failed \<Rightarrow> 2000)"

text \<open>
  Lines 27 to 31: append the row, then drop the oldest row when the list has become longer
  than \<open>HISTORY_SIZE\<close>. \<^verbatim>\<open>pop(0)\<close> runs on a list that is never empty there.
\<close>

definition push :: "row list \<Rightarrow> real \<Rightarrow> row list" where
  "push latency_history current_latency =
     (let h = latency_history @ [[current_latency]]
      in if length h > HISTORY_SIZE then tl h else h)"

text \<open>
  Lines 34 to 46: below 20 rows nothing is fitted and nothing is printed (\<open>None\<close>);
  otherwise a fresh estimator with contamination 0.1 and seed 42 is fitted on the whole list
  and asked about the current latency.
\<close>

definition classify :: "'m isolation_forest \<Rightarrow> row list \<Rightarrow> real \<Rightarrow> report option" where
  "classify lib latency_history current_latency =
     (if length latency_history \<ge> 20 then
        (let clf = fit lib (1 / 10) 42 latency_history;
             prediction = predict lib clf [[current_latency]]
         in if prediction ! 0 = - 1
            then Some (AnomalyDetected current_latency)
            else Some (SystemStable current_latency))
      else None)"

text \<open>One pass through the body of the \<^verbatim>\<open>while True\<close> loop: the new list and what was printed.\<close>

definition loop_body ::
  "'m isolation_forest \<Rightarrow> row list \<Rightarrow> probe \<Rightarrow> row list \<times> report option" where
  "loop_body lib latency_history p =
     (let current_latency = get_latency p;
          h = push latency_history current_latency
      in (h, classify lib h current_latency))"

text \<open>
  The loop never ends; \<open>run\<close> is its behaviour on a finite prefix of probe outcomes, one per
  iteration: the list afterwards and the output of every iteration in order. The script
  starts it from \<^verbatim>\<open>latency_history = []\<close>.
\<close>

fun run ::
  "'m isolation_forest \<Rightarrow> row list \<Rightarrow> probe list \<Rightarrow> row list \<times> report option list" where
  "run lib h [] = (h, [])"
| "run lib h (p # ps) =
     (case loop_body lib h p of
        (h', r) \<Rightarrow> (case run lib h' ps of (h'', rs) \<Rightarrow> (h'', r # rs)))"

text \<open>
  An instance of the library interface for evaluating the loop on concrete inputs: the fitted
  object is the training data itself and a row is called an anomaly when it occurs at most
  once in it.
\<close>

definition rare_row_forest :: "row list isolation_forest" where
  "rare_row_forest =
     \<lparr> fit = (\<lambda>c s X. X),
       predict_row = (\<lambda>m r. if length (filter (\<lambda>x. x = r) m) \<le> 1 then - 1 else 1) \<rparr>"

section \<open>The sliding window\<close>

lemma length_push:
  "length (push h x) = (if length h < HISTORY_SIZE then length h + 1 else length h)"
  by (simp add: push_def Let_def)

lemma fst_loop_body: "fst (loop_body lib h p) = push h (get_latency p)"
  by (simp add: loop_body_def Let_def)

lemma snd_loop_body:
  "snd (loop_body lib h p) = classify lib (push h (get_latency p)) (get_latency p)"
  by (simp add: loop_body_def Let_def)

lemma fst_run: "fst (run lib h ps) = foldl push h (map get_latency ps)"
proof (induction ps arbitrary: h)
  case Nil
  show ?case by simp
next
  case (Cons p ps)
  have "fst (run lib h (p # ps)) = fst (run lib (fst (loop_body lib h p)) ps)"
    by (simp split: prod.splits)
  then show ?case
    by (simp add: Cons.IH fst_loop_body)
qed

lemma snd_run_Cons:
  "snd (run lib h (p # ps)) =
   snd (loop_body lib h p) # snd (run lib (fst (loop_body lib h p)) ps)"
  by (simp split: prod.splits)

lemma length_snd_run: "length (snd (run lib h ps)) = length ps"
proof (induction ps arbitrary: h)
  case Nil
  show ?case by simp
next
  case (Cons p ps)
  show ?case
    unfolding snd_run_Cons by (simp add: Cons.IH)
qed

lemma push_below: "length w < HISTORY_SIZE \<Longrightarrow> push w x = w @ [[x]]"
  by (simp add: push_def Let_def)

lemma push_full: "length w = HISTORY_SIZE \<Longrightarrow> push w x = tl w @ [[x]]"
proof -
  assume len: "length w = HISTORY_SIZE"
  then have "w \<noteq> []" by (auto simp: HISTORY_SIZE_def)
  with len show ?thesis by (simp add: push_def Let_def)
qed

lemma push_suffix:
  "push (map (\<lambda>v. [v]) (drop (length xs - HISTORY_SIZE) xs)) x =
   map (\<lambda>v. [v]) (drop (length (xs @ [x]) - HISTORY_SIZE) (xs @ [x]))"
proof (cases "length xs < HISTORY_SIZE")
  case True
  then show ?thesis
    by (simp add: push_below)
next
  case False
  then have n: "HISTORY_SIZE \<le> length xs" by simp
  let ?k = "length xs - HISTORY_SIZE"
  let ?w = "map (\<lambda>v. [v]) (drop ?k xs)"
  have len: "length ?w = HISTORY_SIZE" using n by simp
  have "push ?w x = tl ?w @ [[x]]"
    using len by (rule push_full)
  also have "tl ?w = map (\<lambda>v. [v]) (drop (Suc ?k) xs)"
    by (simp add: drop_Suc tl_drop map_tl [symmetric])
  also have "Suc ?k = length (xs @ [x]) - HISTORY_SIZE"
    using n by simp
  finally show ?thesis
    using n by (simp add: HISTORY_SIZE_def)
qed

lemma foldl_push_suffix:
  "foldl push [] xs = map (\<lambda>v. [v]) (drop (length xs - HISTORY_SIZE) xs)"
proof (induction xs rule: rev_induct)
  case Nil
  show ?case by simp
next
  case (snoc x xs)
  have "foldl push [] (xs @ [x]) = push (foldl push [] xs) x" by simp
  also have "\<dots> = push (map (\<lambda>v. [v]) (drop (length xs - HISTORY_SIZE) xs)) x"
    by (simp only: snoc.IH)
  finally show ?case
    by (simp only: push_suffix)
qed

lemma window_of_run:
  "fst (run lib [] ps) =
   map (\<lambda>v. [v]) (drop (length ps - HISTORY_SIZE) (map get_latency ps))"
  by (simp add: fst_run foldl_push_suffix)

lemma last_snd_run:
  "ps \<noteq> [] \<Longrightarrow>
   last (snd (run lib h ps)) = classify lib (fst (run lib h ps)) (get_latency (last ps))"
proof (induction ps arbitrary: h)
  case Nil
  then show ?case by simp
next
  case (Cons p ps)
  show ?case
  proof (cases "ps = []")
    case True
    then show ?thesis
      by (simp add: loop_body_def Let_def)
  next
    case False
    then have "snd (run lib (fst (loop_body lib h p)) ps) \<noteq> []"
      using length_snd_run [of lib "fst (loop_body lib h p)" ps] by auto
    then have "last (snd (run lib h (p # ps))) = last (snd (run lib (fst (loop_body lib h p)) ps))"
      unfolding snd_run_Cons by simp
    also have "\<dots> = classify lib (fst (run lib (fst (loop_body lib h p)) ps)) (get_latency (last ps))"
      using False by (rule Cons.IH)
    also have "fst (run lib (fst (loop_body lib h p)) ps) = fst (run lib h (p # ps))"
      by (simp split: prod.splits)
    finally show ?thesis using False by simp
  qed
qed

text \<open>
  C1. Whatever the probes return, the list never holds more than \<open>HISTORY_SIZE\<close> rows, and
  after \<open>HISTORY_SIZE + k\<close> iterations it holds exactly the last \<open>HISTORY_SIZE\<close> samples,
  oldest first.
\<close>

theorem window_bound_fifo:
  "length (fst (run lib [] ps)) \<le> HISTORY_SIZE \<and>
   (length ps = HISTORY_SIZE + k \<longrightarrow>
      fst (run lib [] ps) = map (\<lambda>p. [get_latency p]) (drop k ps))"
proof
  show "length (fst (run lib [] ps)) \<le> HISTORY_SIZE"
    by (simp add: window_of_run)
next
  show "length ps = HISTORY_SIZE + k \<longrightarrow>
      fst (run lib [] ps) = map (\<lambda>p. [get_latency p]) (drop k ps)"
    by (simp add: window_of_run drop_map)
qed

text \<open>Fifty failed probes and then a response after one second: the first penalty row is gone.\<close>

theorem window_bound_fifo_witness:
  "length (replicate 50 Failed @ [Responded 0 1]) = HISTORY_SIZE + 1 \<and>
   length (fst (run rare_row_forest [] (replicate 50 Failed @ [Responded 0 1]))) \<le> HISTORY_SIZE \<and>
   fst (run rare_row_forest [] (replicate 50 Failed @ [Responded 0 1])) =
     replicate 49 [2000] @ [[1000]]"
  using window_bound_fifo [of rare_row_forest "replicate 50 Failed @ [Responded 0 1]" 1]
  by (simp add: HISTORY_SIZE_def get_latency_def)

text \<open>
  C10. One iteration never shortens the list; it lengthens it by one while it is below
  \<open>HISTORY_SIZE\<close> and leaves it at \<open>HISTORY_SIZE\<close> once it is there. From the empty start the
  length after \<open>n\<close> iterations is the smaller of \<open>n\<close> and \<open>HISTORY_SIZE\<close>.
\<close>

theorem occupancy_monotone_saturates:
  "length h \<le> length (fst (loop_body lib h p)) \<and>
   (length h < HISTORY_SIZE \<longrightarrow> length (fst (loop_body lib h p)) = length h + 1) \<and>
   (length h = HISTORY_SIZE \<longrightarrow> length (fst (loop_body lib h p)) = HISTORY_SIZE) \<and>
   length (fst (run lib [] ps)) = min (length ps) HISTORY_SIZE"
  by (simp add: fst_loop_body length_push window_of_run)

theorem occupancy_monotone_saturates_witness:
  "length ([] :: row list) < HISTORY_SIZE \<and>
   length (fst (loop_body rare_row_forest [] Failed)) = 1 \<and>
   length (replicate 50 [12 :: real]) = HISTORY_SIZE \<and>
   length (fst (loop_body rare_row_forest (replicate 50 [12]) Failed)) = HISTORY_SIZE"
  using occupancy_monotone_saturates [of "[]" rare_row_forest Failed "[]"]
        occupancy_monotone_saturates [of "replicate 50 [12]" rare_row_forest Failed "[]"]
  by (simp add: HISTORY_SIZE_def)

section \<open>The probe\<close>




section \<open>Classification\<close>

text \<open>
  C2, as the claim states it, fails: with 19 rows in the list the iteration signals nothing.
  The guard of line 34 is false, so no estimator is fitted and nothing is printed, and the
  loop goes on with the longer list.
\<close>

theorem min_history_gate_counterexample:
  "classify rare_row_forest (replicate 19 [12]) 12 = None \<and>
   loop_body rare_row_forest (replicate 18 [12]) (Responded 0 (3 / 250)) =
     (replicate 18 [12] @ [[12]], None)"
  by (simp add: loop_body_def Let_def get_latency_def push_def classify_def HISTORY_SIZE_def)

text \<open>
  C2, amended. With fewer than 20 rows classification is skipped silently: no estimator is
  fitted, no verdict is produced and no condition is signalled. With 20 rows or more a
  verdict is produced: an anomaly exactly when the estimator fitted on the list labels the
  current latency \<open>-1\<close>.
\<close>

theorem min_history_gate_silent:
  "(length h < 20 \<longrightarrow> classify lib h x = None) \<and>
   (20 \<le> length h \<longrightarrow>
      classify lib h x =
        Some (if predict_row lib (fit lib (1 / 10) 42 h) [x] = - 1
              then AnomalyDetected x else SystemStable x))"
  by (simp add: classify_def Let_def predict_def)

theorem min_history_gate_silent_witness:
  "length (replicate 19 [12 :: real]) < 20 \<and>
   classify rare_row_forest (replicate 19 [12]) 12 = None \<and>
   20 \<le> length (replicate 20 [12 :: real]) \<and>
   classify rare_row_forest (replicate 20 [12]) 12 = Some (SystemStable 12)"
  using min_history_gate_silent [of "replicate 19 [12]" rare_row_forest 12]
        min_history_gate_silent [of "replicate 20 [12]" rare_row_forest 12]
  by (simp add: rare_row_forest_def)

text \<open>
  C9. Two sample streams of at least \<open>HISTORY_SIZE\<close> samples that agree on their last
  \<open>HISTORY_SIZE\<close> samples leave the same list behind and get the same output in their last
  iteration: a sample that has been dropped from the list plays no part afterwards, the
  estimator being fitted anew on the list in every iteration.
\<close>

theorem evicted_samples_no_influence:
  assumes "HISTORY_SIZE \<le> length ps" and "HISTORY_SIZE \<le> length qs"
    and "map get_latency (drop (length ps - HISTORY_SIZE) ps) =
         map get_latency (drop (length qs - HISTORY_SIZE) qs)"
  shows "fst (run lib [] ps) = fst (run lib [] qs) \<and>
         last (snd (run lib [] ps)) = last (snd (run lib [] qs))"
proof -
  have pos: "0 < HISTORY_SIZE" by (simp add: HISTORY_SIZE_def)
  have w: "fst (run lib [] ps) = fst (run lib [] qs)"
    using assms(3) by (simp add: window_of_run drop_map)
  have lastof: "get_latency (last rs) = last (map get_latency (drop (length rs - HISTORY_SIZE) rs))"
    if "HISTORY_SIZE \<le> length rs" for rs
  proof -
    have "length rs - HISTORY_SIZE < length rs" using that pos by linarith
    then have "drop (length rs - HISTORY_SIZE) rs \<noteq> []" by simp
    then show ?thesis by (simp add: last_map)
  qed
  have x: "get_latency (last ps) = get_latency (last qs)"
    using lastof [OF assms(1)] lastof [OF assms(2)] assms(3) by simp
  have "ps \<noteq> []" "qs \<noteq> []" using assms(1,2) pos by auto
  then have "last (snd (run lib [] ps)) = last (snd (run lib [] qs))"
    by (simp add: last_snd_run w x)
  with w show ?thesis by simp
qed

text \<open>A failed probe against a seven-second response, each followed by the same fifty probes.\<close>

theorem evicted_samples_no_influence_witness:
  "HISTORY_SIZE \<le> length (Failed # replicate 50 (Responded 0 1)) \<and>
   HISTORY_SIZE \<le> length (Responded 0 7 # replicate 50 (Responded 0 1)) \<and>
   last (snd (run rare_row_forest [] (Failed # replicate 50 (Responded 0 1)))) =
   last (snd (run rare_row_forest [] (Responded 0 7 # replicate 50 (Responded 0 1))))"
  using evicted_samples_no_influence
    [of "Failed # replicate 50 (Responded 0 1)" "Responded 0 7 # replicate 50 (Responded 0 1)"
        rare_row_forest]
  by (simp add: HISTORY_SIZE_def)

end
